theory Spec2Isabelle
  imports Main "HOL-Library.Sublist"
begin

section \<open>Values of the layout description\<close>

text \<open>
  The scripts are JavaScript. A number that \<^verbatim>\<open>parseInt\<close> returns is an integer or
  \<^verbatim>\<open>NaN\<close>; a structure element is the string \<^verbatim>\<open>'d'\<close> or such a number.
  Integers are mathematical integers: the loss of precision of doubles beyond
  \<open>2^53\<close> is not modelled.
\<close>

datatype jsnum = NaN | Num int

datatype item = D | N jsnum

abbreviation Single :: item where
  "Single \<equiv> N (Num 1)"

text \<open>Comparisons with \<^verbatim>\<open>NaN\<close> are false, whatever the operator.\<close>

fun num_le :: "int \<Rightarrow> jsnum \<Rightarrow> bool" where
  "num_le v NaN = False"
| "num_le v (Num n) = (v \<le> n)"

fun num_lt :: "jsnum \<Rightarrow> int \<Rightarrow> bool" where
  "num_lt NaN k = False"
| "num_lt (Num n) k = (n < k)"

fun isNaN :: "jsnum \<Rightarrow> bool" where
  "isNaN NaN = True"
| "isNaN (Num n) = False"

fun num_add :: "jsnum \<Rightarrow> jsnum \<Rightarrow> jsnum" where
  "num_add (Num a) (Num b) = Num (a + b)"
| "num_add _ _ = NaN"

section \<open>Decimal rendering of a template-literal number\<close>

definition digitChar :: "nat \<Rightarrow> char" where
  "digitChar d = ''0123456789'' ! d"

fun showNat :: "nat \<Rightarrow> string" where
  "showNat n = (if n < 10 then [digitChar n] else showNat (n div 10) @ [digitChar (n mod 10)])"

declare showNat.simps [simp del]

section \<open>The structure-to-markup compiler: \<^verbatim>\<open>generateSlides\<close>\<close>

abbreviation TAB :: char where
  "TAB \<equiv> CHR 0x09"

abbreviation DQ :: char where
  "DQ \<equiv> CHR 0x22"

abbreviation BS :: char where
  "BS \<equiv> CHR 0x5C"

text \<open>The three lines a section divider appends, for the divider counter \<open>d\<close>.\<close>

definition dividerSlide :: "nat \<Rightarrow> string" where
  \<open>dividerSlide d =
     [TAB, TAB, TAB] @ ''<section id="divider-'' @ showNat d
        @ ''" class="section-divider" data-state="is-section-divider">\<newline>''
     @ [TAB, TAB, TAB, TAB] @ ''<h1>Section '' @ showNat d @ '' Title</h1>\<newline>''
     @ [TAB, TAB, TAB] @ ''</section>\<newline>''\<close>

text \<open>The title slide: a single slide at horizontal index 1.\<close>

definition titleSlide :: string where
  \<open>titleSlide =
     [TAB, TAB, TAB] @ ''<section id="title" class="section-divider" data-state="is-section-divider">\<newline>''
     @ [TAB, TAB, TAB, TAB] @ ''<h1>Presentation Title</h1>\<newline>''
     @ [TAB, TAB, TAB] @ ''</section>\<newline>''\<close>

text \<open>An ordinary single slide at horizontal index \<open>h\<close>.\<close>

definition plainSlide :: "nat \<Rightarrow> string" where
  \<open>plainSlide h =
     [TAB, TAB, TAB] @ ''<section id="slide-'' @ showNat h @ ''">\<newline>''
     @ [TAB, TAB, TAB, TAB] @ ''<h2>Slide '' @ showNat h @ '' Title Here</h2>\<newline>''
     @ [TAB, TAB, TAB] @ ''</section>\<newline>''\<close>

text \<open>One inner slide of a vertical stack, at horizontal index \<open>h\<close>, vertical index \<open>v\<close>.\<close>

definition innerSlide :: "nat \<Rightarrow> nat \<Rightarrow> string" where
  \<open>innerSlide h v =
     [TAB, TAB, TAB, TAB] @ ''<section id="slide-'' @ showNat h @ ''-'' @ showNat v @ ''">\<newline>''
     @ [TAB, TAB, TAB, TAB, TAB] @ ''<h2>Slide '' @ showNat h @ ''.'' @ showNat v @ '' Title Here</h2>\<newline>''
     @ [TAB, TAB, TAB, TAB] @ ''</section>\<newline>''\<close>

definition stackOpen :: string where
  \<open>stackOpen = [TAB, TAB, TAB] @ ''<section>\<newline>''\<close>

definition stackClose :: string where
  \<open>stackClose = [TAB, TAB, TAB] @ ''</section>\<newline>''\<close>

text \<open>
  The inner loop \<^verbatim>\<open>for (vIndex = 1; vIndex <= item; vIndex++)\<close>, from the current
  \<open>vIndex\<close>, appending to \<open>slides\<close>.
\<close>

function vLoop :: "string \<Rightarrow> nat \<Rightarrow> jsnum \<Rightarrow> nat \<Rightarrow> string" where
  "vLoop slides h n v =
     (if num_le (int v) n then vLoop (slides @ innerSlide h v) h n (Suc v) else slides)"
  by pat_completeness auto
termination
proof (relation "measure (\<lambda>(slides, h, n, v). case n of NaN \<Rightarrow> 0 | Num k \<Rightarrow> nat (k + 1 - int v))")
  show "wf (measure (\<lambda>(slides, h, n, v). case n of NaN \<Rightarrow> 0 | Num k \<Rightarrow> nat (k + 1 - int v)))"
    by simp
next
  fix slides :: string and h :: nat and n :: jsnum and v :: nat
  assume "num_le (int v) n"
  then show "((slides @ innerSlide h v, h, n, Suc v), (slides, h, n, v))
        \<in> measure (\<lambda>(slides, h, n, v). case n of NaN \<Rightarrow> 0 | Num k \<Rightarrow> nat (k + 1 - int v))"
    by (cases n) auto
qed

declare vLoop.simps [simp del]

text \<open>
  The outer loop over the structure array, with the accumulators \<open>slides\<close>,
  \<open>hIndex\<close> and \<open>dividerCount\<close> of the source. The branches are tested in the
  source's order: \<^verbatim>\<open>item === 'd'\<close>, then \<^verbatim>\<open>item === 1\<close>, then the vertical stack.
\<close>

fun slideLoop :: "item list \<Rightarrow> string \<Rightarrow> nat \<Rightarrow> nat \<Rightarrow> string" where
  "slideLoop [] slides hIndex dividerCount = slides"
| "slideLoop (item # rest) slides hIndex dividerCount =
     (if item = D then
        slideLoop rest (slides @ dividerSlide dividerCount) (Suc hIndex) (Suc dividerCount)
      else if item = Single then
        (if hIndex = 1 then slideLoop rest (slides @ titleSlide) (Suc hIndex) dividerCount
         else slideLoop rest (slides @ plainSlide hIndex) (Suc hIndex) dividerCount)
      else
        slideLoop rest
          (vLoop (slides @ stackOpen) hIndex (case item of N n \<Rightarrow> n | D \<Rightarrow> NaN) 1 @ stackClose)
          (Suc hIndex) dividerCount)"

definition generateSlides :: "item list \<Rightarrow> string" where
  "generateSlides structure = slideLoop structure [] 1 1"

text \<open>
  The slide count, as \<^verbatim>\<open>main\<close> and \<^verbatim>\<open>cleanTemplateHTML\<close> compute it:
  \<^verbatim>\<open>structure.reduce((a, b) => a + (b === 'd' ? 1 : b), 0)\<close>.
\<close>

fun itemCount :: "item \<Rightarrow> jsnum" where
  "itemCount D = Num 1"
| "itemCount (N n) = n"

definition totalSlides :: "item list \<Rightarrow> jsnum" where
  "totalSlides structure = foldl (\<lambda>a b. num_add a (itemCount b)) (Num 0) structure"

text \<open>
  The check of \<^verbatim>\<open>main\<close> on an explicit structure rejects it when
  \<^verbatim>\<open>structure.some(n => n !== 'd' && (n < 1 || isNaN(n)))\<close>.
\<close>

fun badItem :: "item \<Rightarrow> bool" where
  "badItem D = False"
| "badItem (N n) = (num_lt n 1 \<or> isNaN n)"

definition validStructure :: "item list \<Rightarrow> bool" where
  "validStructure structure = (\<not> list_ex badItem structure)"

section \<open>Reading the rendered markup\<close>

datatype tag = Open | Close

fun sectionTags :: "string \<Rightarrow> tag list" where
  "sectionTags [] = []"
| "sectionTags (c # cs) =
     (if prefix ''<section'' (c # cs) then Open # sectionTags cs
      else if prefix ''</section'' (c # cs) then Close # sectionTags cs
      else sectionTags cs)"

fun leafSlides :: "tag list \<Rightarrow> nat" where
  "leafSlides (Open # Close # ts) = Suc (leafSlides ts)"
| "leafSlides (t # ts) = leafSlides ts"
| "leafSlides [] = 0"

definition leafCount :: "string \<Rightarrow> nat" where
  "leafCount markup = leafSlides (sectionTags markup)"

fun countOcc :: "string \<Rightarrow> string \<Rightarrow> nat" where
  "countOcc pat [] = 0"
| "countOcc pat (c # cs) = (if prefix pat (c # cs) then 1 else 0) + countOcc pat cs"

lemma digitChar_cases:
  "d < 10 \<Longrightarrow> digitChar d \<in> set ''0123456789''"
  unfolding digitChar_def by (rule nth_mem) simp

lemma showNat_digits: "set (showNat n) \<subseteq> set ''0123456789''"
proof (induction n rule: showNat.induct)
  case (1 n)
  show ?case
  proof (cases "n < 10")
    case True
    then show ?thesis using digitChar_cases [of n] by (subst showNat.simps) simp
  next
    case False
    have "n mod 10 < 10" by simp
    then have "digitChar (n mod 10) \<in> set ''0123456789''" by (rule digitChar_cases)
    with False 1 show ?thesis by (subst showNat.simps) simp
  qed
qed

lemma prefix_append_last:
  assumes "s \<noteq> []" "last s \<notin> set p"
  shows "prefix p (s @ b) = prefix p s"
proof
  assume "prefix p (s @ b)"
  then consider "prefix p s" | us where "p = s @ us"
    by (auto simp: prefix_append)
  then show "prefix p s"
  proof cases
    case 1 then show ?thesis .
  next
    case 2
    with assms have False by auto
    then show ?thesis ..
  qed
next
  assume "prefix p s" then show "prefix p (s @ b)" by (rule prefix_prefix)
qed

lemma sectionTags_append:
  assumes "a = [] \<or> last a = CHR 0x0A"
  shows "sectionTags (a @ b) = sectionTags a @ sectionTags b"
  using assms
proof (induction a)
  case Nil
  then show ?case by simp
next
  case (Cons c cs)
  show ?case
  proof (cases "cs = []")
    case True
    with Cons.prems have "c = CHR 0x0A" by simp
    with True show ?thesis by simp
  next
    case False
    with Cons.prems have l: "last (c # cs) = CHR 0x0A" by simp
    have p1: "prefix ''<section'' ((c # cs) @ b) = prefix ''<section'' (c # cs)"
      by (rule prefix_append_last) (use l in auto)
    have p2: "prefix ''</section'' ((c # cs) @ b) = prefix ''</section'' (c # cs)"
      by (rule prefix_append_last) (use l in auto)
    from False Cons.prems have "cs = [] \<or> last cs = CHR 0x0A" by simp
    then have ih: "sectionTags (cs @ b) = sectionTags cs @ sectionTags b" by (rule Cons.IH)
    show ?thesis using p1 p2 ih by simp
  qed
qed

lemma sectionTags_skip:
  "CHR ''<'' \<notin> set a \<Longrightarrow> sectionTags (a @ b) = sectionTags b"
  by (induction a) auto

lemma sectionTags_showNat [simp]: "sectionTags (showNat n @ b) = sectionTags b"
  by (rule sectionTags_skip) (use showNat_digits [of n] in auto)

lemma tags_dividerSlide: "sectionTags (dividerSlide d) = [Open, Close]"
  by (simp add: dividerSlide_def)

lemma tags_titleSlide: "sectionTags titleSlide = [Open, Close]"
  by (simp add: titleSlide_def)

lemma tags_plainSlide: "sectionTags (plainSlide h) = [Open, Close]"
  by (simp add: plainSlide_def)

lemma tags_innerSlide: "sectionTags (innerSlide h v) = [Open, Close]"
  by (simp add: innerSlide_def)

lemma tags_stackOpen: "sectionTags stackOpen = [Open]"
  by (simp add: stackOpen_def)

lemma tags_stackClose: "sectionTags stackClose = [Close]"
  by (simp add: stackClose_def)

section \<open>The loops in closed form\<close>

definition upper :: "jsnum \<Rightarrow> nat" where
  "upper n = (case n of NaN \<Rightarrow> 0 | Num k \<Rightarrow> nat (k + 1))"

lemma vLoop_closed:
  "vLoop slides h n v = slides @ concat (map (innerSlide h) [v ..< upper n])"
proof (induction slides h n v rule: vLoop.induct)
  case (1 slides h n v)
  show ?case
  proof (cases "num_le (int v) n")
    case True
    then have "v < upper n" by (cases n) (auto simp: upper_def)
    then have "[v ..< upper n] = v # [Suc v ..< upper n]" by (rule upt_conv_Cons)
    with True 1 show ?thesis by (subst vLoop.simps) simp
  next
    case False
    then have "upper n \<le> v" by (cases n) (auto simp: upper_def)
    with False show ?thesis by (subst vLoop.simps) simp
  qed
qed

definition stackSlides :: "nat \<Rightarrow> jsnum \<Rightarrow> string" where
  "stackSlides h n = stackOpen @ concat (map (innerSlide h) [1 ..< upper n]) @ stackClose"

definition block :: "nat \<Rightarrow> nat \<Rightarrow> item \<Rightarrow> string" where
  "block h d item =
     (case item of
        D \<Rightarrow> dividerSlide d
      | N n \<Rightarrow> if n = Num 1 then (if h = 1 then titleSlide else plainSlide h)
               else stackSlides h n)"

fun blocks :: "nat \<Rightarrow> nat \<Rightarrow> item list \<Rightarrow> string list" where
  "blocks h d [] = []"
| "blocks h d (item # rest) = block h d item # blocks (Suc h) (if item = D then Suc d else d) rest"

lemma slideLoop_closed:
  "slideLoop s slides h d = slides @ concat (blocks h d s)"
proof (induction s arbitrary: slides h d)
  case Nil
  show ?case by simp
next
  case (Cons item rest)
  show ?case
  proof (cases item)
    case D
    then show ?thesis by (simp add: Cons.IH block_def)
  next
    case (N n)
    then show ?thesis
      by (simp add: Cons.IH block_def vLoop_closed stackSlides_def)
  qed
qed

lemma generateSlides_blocks: "generateSlides s = concat (blocks 1 1 s)"
  by (simp add: generateSlides_def slideLoop_closed)


lemma blocks_length [simp]: "length (blocks h d s) = length s"
  by (induction s arbitrary: h d) auto


lemma innerSlide_last: "innerSlide h v \<noteq> [] \<and> last (innerSlide h v) = CHR 0x0A"
  by (simp add: innerSlide_def)

lemma tags_inner_list:
  "sectionTags (concat (map (innerSlide h) vs) @ b)
     = concat (replicate (length vs) [Open, Close]) @ sectionTags b"
proof (induction vs)
  case Nil
  show ?case by simp
next
  case (Cons v vs)
  have "sectionTags (innerSlide h v @ (concat (map (innerSlide h) vs) @ b))
      = sectionTags (innerSlide h v) @ sectionTags (concat (map (innerSlide h) vs) @ b)"
    by (rule sectionTags_append) (simp add: innerSlide_last)
  then show ?case by (simp add: Cons.IH tags_innerSlide)
qed

lemma tags_stackSlides:
  "sectionTags (stackSlides h n) = Open # concat (replicate (upper n - 1) [Open, Close]) @ [Close]"
proof -
  have "sectionTags (stackOpen @ (concat (map (innerSlide h) [1 ..< upper n]) @ stackClose))
      = sectionTags stackOpen @ sectionTags (concat (map (innerSlide h) [1 ..< upper n]) @ stackClose)"
    by (rule sectionTags_append) (simp add: stackOpen_def)
  then show ?thesis
    by (simp add: stackSlides_def tags_inner_list tags_stackOpen tags_stackClose)
qed

fun itemTags :: "item \<Rightarrow> tag list" where
  "itemTags D = [Open, Close]"
| "itemTags (N n) =
     (if n = Num 1 then [Open, Close]
      else Open # concat (replicate (upper n - 1) [Open, Close]) @ [Close])"

lemma tags_block: "sectionTags (block h d item) = itemTags item"
  by (cases item)
     (simp_all add: block_def tags_dividerSlide tags_titleSlide tags_plainSlide tags_stackSlides)

lemma block_last: "block h d item = [] \<or> last (block h d item) = CHR 0x0A"
  by (cases item)
     (simp_all add: block_def dividerSlide_def titleSlide_def plainSlide_def
        stackSlides_def stackClose_def)

lemma tags_blocks:
  "sectionTags (concat (blocks h d s)) = concat (map itemTags s)"
proof (induction s arbitrary: h d)
  case Nil
  show ?case by simp
next
  case (Cons x xs)
  have "sectionTags (block h d x @ concat (blocks (Suc h) (if x = D then Suc d else d) xs))
      = sectionTags (block h d x) @ sectionTags (concat (blocks (Suc h) (if x = D then Suc d else d) xs))"
    by (rule sectionTags_append) (rule block_last)
  then show ?case by (simp add: Cons.IH tags_block)
qed

lemma tags_generateSlides: "sectionTags (generateSlides s) = concat (map itemTags s)"
  by (simp add: generateSlides_blocks tags_blocks)

lemma leafSlides_pairs:
  "leafSlides (concat (replicate m [Open, Close]) @ ts) = m + leafSlides ts"
  by (induction m) auto

lemma leafSlides_stack:
  "0 < m \<Longrightarrow> leafSlides (Open # concat (replicate m [Open, Close]) @ Close # ts) = m + leafSlides ts"
proof -
  assume "0 < m"
  then obtain k where m: "m = Suc k" by (cases m) auto
  have "leafSlides (Open # concat (replicate m [Open, Close]) @ Close # ts)
      = Suc (leafSlides (concat (replicate k [Open, Close]) @ Close # ts))"
    by (simp add: m)
  also have "\<dots> = Suc (k + leafSlides (Close # ts))" by (simp only: leafSlides_pairs)
  finally show ?thesis by (simp add: m)
qed

fun itemSlides :: "item \<Rightarrow> nat" where
  "itemSlides D = 1"
| "itemSlides (N NaN) = 0"
| "itemSlides (N (Num k)) = nat k"

lemma leafSlides_item:
  "\<not> badItem x \<Longrightarrow> leafSlides (itemTags x @ ts) = itemSlides x + leafSlides ts"
proof (cases x)
  case D
  then show ?thesis by simp
next
  case (N n)
  assume ok: "\<not> badItem x"
  with N obtain k where k: "n = Num k" "1 \<le> k" by (cases n) auto
  show ?thesis
  proof (cases "k = 1")
    case True
    with N k show ?thesis by simp
  next
    case False
    with k have "0 < upper n - 1" "upper n - 1 = nat k" by (auto simp: upper_def)
    with N k False show ?thesis using leafSlides_stack [of "upper n - 1" ts] by simp
  qed
qed

lemma leafSlides_items:
  "\<not> list_ex badItem s \<Longrightarrow> leafSlides (concat (map itemTags s)) = sum_list (map itemSlides s)"
  by (induction s) (auto simp: leafSlides_item)

lemma totalSlides_fold:
  "\<not> list_ex badItem s \<Longrightarrow>
     foldl (\<lambda>a b. num_add a (itemCount b)) (Num a) s = Num (a + int (sum_list (map itemSlides s)))"
proof (induction s arbitrary: a)
  case Nil
  show ?case by simp
next
  case (Cons x xs)
  from Cons.prems have ok: "\<not> badItem x" and rest: "\<not> list_ex badItem xs" by auto
  from ok have "num_add (Num a) (itemCount x) = Num (a + int (itemSlides x))"
  proof (cases x)
    case D then show ?thesis by simp
  next
    case (N n)
    with ok obtain k where "n = Num k" "1 \<le> k" by (cases n) auto
    with N show ?thesis by simp
  qed
  then show ?case using Cons.IH [OF rest] by (simp add: add.assoc)
qed

lemma slideCount_is_leafCount:
  "validStructure s \<Longrightarrow> totalSlides s = Num (int (leafCount (generateSlides s)))"
  by (simp add: validStructure_def totalSlides_def totalSlides_fold leafCount_def
        tags_generateSlides leafSlides_items)

fun splitOn :: "char \<Rightarrow> string \<Rightarrow> string list" where
  "splitOn sep [] = [[]]"
| "splitOn sep (c # cs) =
     (if c = sep then [] # splitOn sep cs
      else (case splitOn sep cs of w # ws \<Rightarrow> (c # w) # ws | [] \<Rightarrow> [[c]]))"

definition isWhite :: "char \<Rightarrow> bool" where
  "isWhite c = (c \<in> set [CHR '' '', CHR 0x09, CHR 0x0A, CHR 0x0B, CHR 0x0C, CHR 0x0D])"

definition isDigit :: "char \<Rightarrow> bool" where
  "isDigit c = (c \<in> set ''0123456789'')"

definition digitVal :: "char \<Rightarrow> int" where
  "digitVal c = int (of_char c) - 48"

definition parseInt10 :: "string \<Rightarrow> jsnum" where
  "parseInt10 s =
     (let t = dropWhile isWhite s;
          neg = (t \<noteq> [] \<and> hd t = CHR ''-'');
          u = (if t \<noteq> [] \<and> (hd t = CHR ''-'' \<or> hd t = CHR ''+'') then tl t else t);
          ds = takeWhile isDigit u
      in if ds = [] then NaN
         else Num ((if neg then - 1 else 1) * foldl (\<lambda>a c. 10 * a + digitVal c) 0 ds))"

definition structureOf :: "string \<Rightarrow> item list" where
  "structureOf arg = map (\<lambda>n. if n = ''d'' then D else N (parseInt10 n)) (splitOn (CHR '','') arg)"


lemma structureOf_example: "structureOf ''1,d,3,1'' = [Single, D, N (Num 3), Single]"
  by (simp add: structureOf_def parseInt10_def isWhite_def isDigit_def digitVal_def)

lemma countOcc_append:
  assumes "a = [] \<or> last a \<notin> set pat"
  shows "countOcc pat (a @ b) = countOcc pat a + countOcc pat b"
  using assms
proof (induction a)
  case Nil
  show ?case by simp
next
  case (Cons c cs)
  from Cons.prems have l: "last (c # cs) \<notin> set pat" by simp
  have p: "prefix pat ((c # cs) @ b) = prefix pat (c # cs)"
    by (rule prefix_append_last) (use l in auto)
  from l have "cs = [] \<or> last cs \<notin> set pat" by (cases "cs = []") auto
  then have "countOcc pat (cs @ b) = countOcc pat cs + countOcc pat b" by (rule Cons.IH)
  with p show ?case by simp
qed

lemma countOcc_skip:
  assumes "pat \<noteq> []" "hd pat \<notin> set a"
  shows "countOcc pat (a @ b) = countOcc pat b"
proof -
  from assms(1) obtain p ps where pat: "pat = p # ps" by (cases pat) auto
  from assms(2) show ?thesis unfolding pat by (induction a) auto
qed

abbreviation dividerMark :: string where
  \<open>dividerMark \<equiv> ''<section id="divider-''\<close>

lemma dividerMark_showNat [simp]: "countOcc dividerMark (showNat n @ b) = countOcc dividerMark b"
  by (rule countOcc_skip) (use showNat_digits [of n] in auto)

lemma dividerMark_dividerSlide: "countOcc dividerMark (dividerSlide d) = 1"
  by (simp add: dividerSlide_def)

lemma dividerMark_titleSlide: "countOcc dividerMark titleSlide = 0"
  by (simp add: titleSlide_def)

lemma dividerMark_plainSlide: "countOcc dividerMark (plainSlide h) = 0"
  by (simp add: plainSlide_def)

lemma dividerMark_innerSlide: "countOcc dividerMark (innerSlide h v) = 0"
  by (simp add: innerSlide_def)

lemma dividerMark_inner_list:
  "countOcc dividerMark (concat (map (innerSlide h) vs) @ b) = countOcc dividerMark b"
proof (induction vs)
  case Nil
  show ?case by simp
next
  case (Cons v vs)
  have "countOcc dividerMark (innerSlide h v @ (concat (map (innerSlide h) vs) @ b))
      = countOcc dividerMark (innerSlide h v) + countOcc dividerMark (concat (map (innerSlide h) vs) @ b)"
    by (rule countOcc_append) (simp add: innerSlide_def)
  then show ?case by (simp add: Cons.IH dividerMark_innerSlide)
qed

lemma dividerMark_stackSlides: "countOcc dividerMark (stackSlides h n) = 0"
proof -
  have "countOcc dividerMark (stackOpen @ (concat (map (innerSlide h) [1 ..< upper n]) @ stackClose))
      = countOcc dividerMark stackOpen
        + countOcc dividerMark (concat (map (innerSlide h) [1 ..< upper n]) @ stackClose)"
    by (rule countOcc_append) (simp add: stackOpen_def)
  then show ?thesis
    by (simp add: stackSlides_def dividerMark_inner_list) (simp add: stackOpen_def stackClose_def)
qed

lemma dividerMark_block:
  "countOcc dividerMark (block h d x) = (if x = D then 1 else 0)"
  by (cases x)
     (simp_all add: block_def dividerMark_dividerSlide dividerMark_titleSlide
        dividerMark_plainSlide dividerMark_stackSlides)

lemma block_last_mark: "block h d x = [] \<or> last (block h d x) \<notin> set dividerMark"
  using block_last [of h d x] by auto

lemma dividerMark_blocks:
  "countOcc dividerMark (concat (blocks h d s)) = length (filter (\<lambda>x. x = D) s)"
proof (induction s arbitrary: h d)
  case Nil
  show ?case by simp
next
  case (Cons x xs)
  have "countOcc dividerMark (block h d x @ concat (blocks (Suc h) (if x = D then Suc d else d) xs))
      = countOcc dividerMark (block h d x)
        + countOcc dividerMark (concat (blocks (Suc h) (if x = D then Suc d else d) xs))"
    by (rule countOcc_append) (rule block_last_mark)
  then show ?case by (simp add: Cons.IH dividerMark_block)
qed

definition dividerElements :: "string \<Rightarrow> nat" where
  "dividerElements markup = countOcc dividerMark markup"

lemma dividerElements_generateSlides:
  "dividerElements (generateSlides s) = length (filter (\<lambda>x. x = D) s)"
  by (simp add: dividerElements_def generateSlides_blocks dividerMark_blocks)

text \<open>
  C1. For every structure that passes the validation of \<^verbatim>\<open>main\<close> (each element
  is \<^verbatim>\<open>'d'\<close> or an integer of at least 1), the slide count that \<^verbatim>\<open>main\<close> and
  \<^verbatim>\<open>cleanTemplateHTML\<close> compute with \<^verbatim>\<open>reduce\<close> is the number of leaf slide
  elements of the markup \<^verbatim>\<open>generateSlides\<close> renders: the section elements that hold
  no nested section, read back from the string. The token list \<^verbatim>\<open>1,d,3,1\<close> gives
  slide count 6, one element with a \<^verbatim>\<open>divider-\<close> identifier, and one container
  holding three inner slides. (The title slide shares the \<^verbatim>\<open>section-divider\<close> class
  with the divider; the divider element counted here is the one \<^verbatim>\<open>'d'\<close> renders.)
\<close>

theorem C1_slide_count_matches_markup:
  "(validStructure s \<longrightarrow> totalSlides s = Num (int (leafCount (generateSlides s))))
   \<and> validStructure (structureOf ''1,d,3,1'')
   \<and> totalSlides (structureOf ''1,d,3,1'') = Num 6
   \<and> leafCount (generateSlides (structureOf ''1,d,3,1'')) = 6
   \<and> dividerElements (generateSlides (structureOf ''1,d,3,1'')) = 1
   \<and> sectionTags (generateSlides (structureOf ''1,d,3,1''))
       = [Open, Close, Open, Close, Open, Open, Close, Open, Close, Open, Close, Close, Open, Close]"
proof -
  have t: "sectionTags (generateSlides (structureOf ''1,d,3,1''))
       = [Open, Close, Open, Close, Open, Open, Close, Open, Close, Open, Close, Close, Open, Close]"
    by (simp add: structureOf_example tags_generateSlides upper_def numeral_eq_Suc)
  have v: "validStructure (structureOf ''1,d,3,1'')"
    by (simp add: structureOf_example validStructure_def)
  have c: "totalSlides (structureOf ''1,d,3,1'') = Num 6"
    by (simp add: structureOf_example totalSlides_def)
  have l: "leafCount (generateSlides (structureOf ''1,d,3,1'')) = 6"
    by (simp add: leafCount_def t)
  have d: "dividerElements (generateSlides (structureOf ''1,d,3,1'')) = 1"
    by (simp add: dividerElements_generateSlides structureOf_example)
  show ?thesis using slideCount_is_leafCount [of s] t v c l d by simp
qed

theorem C1_witness:
  "validStructure [D, N (Num 2), Single]
   \<and> totalSlides [D, N (Num 2), Single] = Num (int (leafCount (generateSlides [D, N (Num 2), Single])))
   \<and> totalSlides [D, N (Num 2), Single] = Num 4"
proof -
  have v: "validStructure [D, N (Num 2), Single]" by (simp add: validStructure_def)
  have c: "totalSlides [D, N (Num 2), Single] = Num 4" by (simp add: totalSlides_def)
  show ?thesis using C1_slide_count_matches_markup [of "[D, N (Num 2), Single]"] v c by simp
qed


abbreviation titleMark :: string where
  \<open>titleMark \<equiv> ''<section id="title"''\<close>

lemma titleMark_showNat [simp]: "countOcc titleMark (showNat n @ b) = countOcc titleMark b"
  by (rule countOcc_skip) (use showNat_digits [of n] in auto)















fun idsOf :: "string \<Rightarrow> string list" where
  "idsOf [] = []"
| "idsOf (c # cs) =
     (if prefix (''id='' @ [DQ]) (c # cs)
      then takeWhile (\<lambda>x. x \<noteq> DQ) (drop 3 cs) # idsOf cs
      else idsOf cs)"

lemma showNat_nonempty: "showNat n \<noteq> []"
  by (subst showNat.simps) simp

lemma digitChar_inj: "a < 10 \<Longrightarrow> b < 10 \<Longrightarrow> digitChar a = digitChar b \<Longrightarrow> a = b"
proof -
  assume a: "a < 10" and b: "b < 10" and e: "digitChar a = digitChar b"
  have d: "distinct ''0123456789''" by simp
  have "length ''0123456789'' = 10" by simp
  with a b e d show "a = b" unfolding digitChar_def
    by (metis nth_eq_iff_index_eq)
qed

lemma showNat_inj: "showNat n = showNat m \<Longrightarrow> n = m"
proof (induction n arbitrary: m rule: showNat.induct)
  case (1 n)
  show ?case
  proof (cases "n < 10")
    case True
    then have n: "showNat n = [digitChar n]" by (subst showNat.simps) simp
    show ?thesis
    proof (cases "m < 10")
      case True
      then have "showNat m = [digitChar m]" by (subst showNat.simps) simp
      with n "1.prems" have "digitChar n = digitChar m" by simp
      with \<open>n < 10\<close> True show ?thesis by (rule digitChar_inj)
    next
      case False
      then have "showNat m = showNat (m div 10) @ [digitChar (m mod 10)]"
        by (subst showNat.simps) simp
      with n "1.prems" showNat_nonempty [of "m div 10"] show ?thesis by (cases "showNat (m div 10)") auto
    qed
  next
    case False
    then have n: "showNat n = showNat (n div 10) @ [digitChar (n mod 10)]"
      by (subst showNat.simps) simp
    show ?thesis
    proof (cases "m < 10")
      case True
      then have "showNat m = [digitChar m]" by (subst showNat.simps) simp
      with n "1.prems" showNat_nonempty [of "n div 10"] show ?thesis by (cases "showNat (n div 10)") auto
    next
      case m: False
      then have "showNat m = showNat (m div 10) @ [digitChar (m mod 10)]"
        by (subst showNat.simps) simp
      with n "1.prems" have e: "showNat (n div 10) = showNat (m div 10)"
        and d: "digitChar (n mod 10) = digitChar (m mod 10)" by auto
      from False e have "n div 10 = m div 10" by (rule "1.IH")
      moreover have "n mod 10 = m mod 10" by (rule digitChar_inj [OF _ _ d]) simp_all
      ultimately show ?thesis by (metis div_mult_mod_eq)
    qed
  qed
qed

lemma showNat_no_dq [simp]: "DQ \<notin> set (showNat n)"
  using showNat_digits [of n] by auto

lemma showNat_no_dash [simp]: "CHR ''-'' \<notin> set (showNat n)"
  using showNat_digits [of n] by auto

lemma takeWhile_showNat [simp]:
  "takeWhile (\<lambda>x. x \<noteq> DQ) (showNat n @ b) = showNat n @ takeWhile (\<lambda>x. x \<noteq> DQ) b"
  by (rule takeWhile_append2) (use showNat_no_dq [of n] in auto)

lemma idsOf_skip: "CHR ''i'' \<notin> set a \<Longrightarrow> idsOf (a @ b) = idsOf b"
  by (induction a) auto

lemma idsOf_showNat [simp]: "idsOf (showNat n @ b) = idsOf b"
  by (rule idsOf_skip) (use showNat_digits [of n] in auto)

definition titleId :: string where
  "titleId = ''title''"

definition dividerId :: "nat \<Rightarrow> string" where
  "dividerId k = ''divider-'' @ showNat k"

definition plainId :: "nat \<Rightarrow> string" where
  "plainId h = ''slide-'' @ showNat h"

definition innerId :: "nat \<Rightarrow> nat \<Rightarrow> string" where
  "innerId h v = ''slide-'' @ showNat h @ ''-'' @ showNat v"

definition blockIds :: "nat \<Rightarrow> nat \<Rightarrow> item \<Rightarrow> string list" where
  "blockIds h d item =
     (case item of
        D \<Rightarrow> [dividerId d]
      | N n \<Rightarrow> if n = Num 1 then [if h = 1 then titleId else plainId h]
               else map (innerId h) [1 ..< upper n])"

fun slideIds :: "nat \<Rightarrow> nat \<Rightarrow> item list \<Rightarrow> string list" where
  "slideIds h d [] = []"
| "slideIds h d (x # xs) = blockIds h d x @ slideIds (Suc h) (if x = D then Suc d else d) xs"

lemma ids_dividerSlide: "idsOf (dividerSlide d @ r) = dividerId d # idsOf r"
  by (simp add: dividerSlide_def dividerId_def)

lemma ids_titleSlide: "idsOf (titleSlide @ r) = titleId # idsOf r"
  by (simp add: titleSlide_def titleId_def)

lemma ids_plainSlide: "idsOf (plainSlide h @ r) = plainId h # idsOf r"
  by (simp add: plainSlide_def plainId_def)

lemma ids_innerSlide: "idsOf (innerSlide h v @ r) = innerId h v # idsOf r"
  by (simp add: innerSlide_def innerId_def)

lemma ids_stackOpen: "idsOf (stackOpen @ r) = idsOf r"
  by (simp add: stackOpen_def)

lemma ids_stackClose: "idsOf (stackClose @ r) = idsOf r"
  by (simp add: stackClose_def)

lemma ids_inner_list:
  "idsOf (concat (map (innerSlide h) vs) @ r) = map (innerId h) vs @ idsOf r"
  by (induction vs) (simp_all add: ids_innerSlide)

lemma ids_stackSlides:
  "idsOf (stackSlides h n @ r) = map (innerId h) [1 ..< upper n] @ idsOf r"
  by (simp add: stackSlides_def ids_stackOpen ids_inner_list ids_stackClose)

lemma ids_block: "idsOf (block h d x @ r) = blockIds h d x @ idsOf r"
  by (cases x)
     (simp_all add: block_def blockIds_def ids_dividerSlide ids_titleSlide ids_plainSlide
        ids_stackSlides)

lemma ids_blocks: "idsOf (concat (blocks h d s) @ r) = slideIds h d s @ idsOf r"
  by (induction s arbitrary: h d) (simp_all add: ids_block)

lemma ids_generateSlides: "idsOf (generateSlides s) = slideIds 1 1 s"
  using ids_blocks [of 1 1 s "[]"] by (simp add: generateSlides_blocks)

lemma dash_split:
  "CHR ''-'' \<notin> set a \<Longrightarrow> CHR ''-'' \<notin> set a' \<Longrightarrow>
     a @ CHR ''-'' # b = a' @ CHR ''-'' # b' \<Longrightarrow> a = a' \<and> b = b'"
proof (induction a arbitrary: a')
  case Nil
  then show ?case by (cases a') auto
next
  case (Cons x xs)
  then show ?case by (cases a') auto
qed

lemma innerId_inj: "innerId h v = innerId j w \<Longrightarrow> h = j \<and> v = w"
proof -
  assume "innerId h v = innerId j w"
  then have "showNat h @ CHR ''-'' # showNat v = showNat j @ CHR ''-'' # showNat w"
    by (simp add: innerId_def)
  then have "showNat h = showNat j \<and> showNat v = showNat w"
    by (intro dash_split) simp_all
  then show ?thesis by (auto dest: showNat_inj)
qed

lemma dividerId_inj: "dividerId k = dividerId j \<Longrightarrow> k = j"
  by (simp add: dividerId_def showNat_inj)

lemma plainId_inj: "plainId k = plainId j \<Longrightarrow> k = j"
  by (simp add: plainId_def showNat_inj)

lemma innerId_not_plain: "innerId h v \<noteq> plainId j"
proof
  assume "innerId h v = plainId j"
  then have "showNat j = showNat h @ CHR ''-'' # showNat v" by (simp add: innerId_def plainId_def)
  then have "CHR ''-'' \<in> set (showNat j)" by simp
  then show False by simp
qed

lemma id_kinds_differ:
  "titleId \<noteq> dividerId k" "titleId \<noteq> plainId h" "titleId \<noteq> innerId h v"
  "dividerId k \<noteq> plainId h" "dividerId k \<noteq> innerId h v"
  by (simp_all add: titleId_def dividerId_def plainId_def innerId_def)

datatype idKind = TitleId | DividerId nat | SlideId nat | InnerId nat nat

fun idText :: "idKind \<Rightarrow> string" where
  "idText TitleId = titleId"
| "idText (DividerId k) = dividerId k"
| "idText (SlideId h) = plainId h"
| "idText (InnerId h v) = innerId h v"

lemma idText_inj: "idText a = idText b \<Longrightarrow> a = b"
proof (cases a; cases b)
qed (auto dest: dividerId_inj plainId_inj innerId_inj
       simp: innerId_not_plain innerId_not_plain [symmetric]
         id_kinds_differ id_kinds_differ [symmetric])

fun idFrom :: "nat \<Rightarrow> nat \<Rightarrow> idKind \<Rightarrow> bool" where
  "idFrom h d TitleId = (h = 1)"
| "idFrom h d (DividerId k) = (d \<le> k)"
| "idFrom h d (SlideId j) = (h \<le> j)"
| "idFrom h d (InnerId j v) = (h \<le> j)"

lemma blockIds_kinds:
  assumes "x \<in> set (blockIds h d item)"
  shows "\<exists>a. x = idText a \<and> idFrom h d a
            \<and> (case a of TitleId \<Rightarrow> True | DividerId k \<Rightarrow> k = d \<and> item = D
                 | SlideId j \<Rightarrow> j = h | InnerId j v \<Rightarrow> j = h)"
proof (cases item)
  case D
  with assms have "x = idText (DividerId d)" by (simp add: blockIds_def)
  with D show ?thesis by (intro exI [of _ "DividerId d"]) simp
next
  case (N n)
  show ?thesis
  proof (cases "n = Num 1")
    case True
    show ?thesis
    proof (cases "h = 1")
      case h: True
      with True N assms have "x = idText TitleId" by (simp add: blockIds_def)
      with h show ?thesis by (intro exI [of _ TitleId]) simp
    next
      case h: False
      with True N assms have "x = idText (SlideId h)" by (simp add: blockIds_def)
      then show ?thesis by (intro exI [of _ "SlideId h"]) simp
    qed
  next
    case False
    with N assms obtain v where "x = idText (InnerId h v)" by (auto simp: blockIds_def)
    then show ?thesis by (intro exI [of _ "InnerId h v"]) simp
  qed
qed

lemma idFrom_mono: "idFrom (Suc h) d' a \<Longrightarrow> 0 < h \<Longrightarrow> d \<le> d' \<Longrightarrow> idFrom h d a"
  by (cases a) auto

lemma slideIds_kinds:
  "x \<in> set (slideIds h d s) \<Longrightarrow> 0 < h \<Longrightarrow> \<exists>a. x = idText a \<and> idFrom h d a"
proof (induction s arbitrary: h d)
  case Nil
  then show ?case by simp
next
  case (Cons y ys)
  from Cons.prems consider "x \<in> set (blockIds h d y)"
    | "x \<in> set (slideIds (Suc h) (if y = D then Suc d else d) ys)" by auto
  then show ?case
  proof cases
    case 1
    from blockIds_kinds [OF 1] show ?thesis by blast
  next
    case 2
    from Cons.IH [OF 2] obtain a where a: "x = idText a"
      and f: "idFrom (Suc h) (if y = D then Suc d else d) a" by auto
    from f Cons.prems(2) have "idFrom h d a" by (rule idFrom_mono) simp
    with a show ?thesis by blast
  qed
qed

lemma blockIds_distinct: "distinct (blockIds h d item)"
proof (cases item)
  case D
  then show ?thesis by (simp add: blockIds_def)
next
  case (N n)
  have "inj_on (innerId h) (set [1 ..< upper n])"
    by (rule inj_onI) (auto dest: innerId_inj)
  then have "distinct (map (innerId h) [1 ..< upper n])" by (simp add: distinct_map)
  with N show ?thesis by (simp add: blockIds_def)
qed

lemma blockIds_rest_disjoint:
  assumes "0 < h" "x \<in> set (blockIds h d y)"
    and "x \<in> set (slideIds (Suc h) (if y = D then Suc d else d) ys)"
  shows False
proof -
  from blockIds_kinds [OF assms(2)] obtain a where a: "x = idText a"
    and ak: "case a of TitleId \<Rightarrow> True | DividerId k \<Rightarrow> k = d \<and> y = D
                 | SlideId j \<Rightarrow> j = h | InnerId j v \<Rightarrow> j = h" by blast
  from slideIds_kinds [OF assms(3)] obtain b where b: "x = idText b"
    and bk: "idFrom (Suc h) (if y = D then Suc d else d) b" by auto
  from a b have "a = b" by (auto intro: idText_inj)
  with ak bk assms(1) show False by (cases a) (auto split: if_splits)
qed

lemma slideIds_distinct: "0 < h \<Longrightarrow> distinct (slideIds h d s)"
proof (induction s arbitrary: h d)
  case Nil
  show ?case by simp
next
  case (Cons y ys)
  have "distinct (slideIds (Suc h) (if y = D then Suc d else d) ys)"
    by (rule Cons.IH) simp
  moreover have "set (blockIds h d y) \<inter> set (slideIds (Suc h) (if y = D then Suc d else d) ys) = {}"
    using blockIds_rest_disjoint [OF Cons.prems] by blast
  ultimately show ?case by (simp add: blockIds_distinct)
qed

text \<open>
  C8. The identifiers read back from the rendered markup are pairwise different, and
  they are the list \<open>slideIds 1 1 s\<close>, a function of the structure alone: the compiler
  reads no clock, no random source and no state, so rendering the same structure again
  gives the same identifiers.
\<close>

theorem C8_identifiers_unique:
  "distinct (idsOf (generateSlides s)) \<and> idsOf (generateSlides s) = slideIds 1 1 s"
  by (simp add: ids_generateSlides slideIds_distinct)

theorem C8_witness:
  "idsOf (generateSlides [Single, D, N (Num 2), Single, D])
     = [''title'', ''divider-1'', ''slide-3-1'', ''slide-3-2'', ''slide-4'', ''divider-2'']
   \<and> distinct (idsOf (generateSlides [Single, D, N (Num 2), Single, D]))"
proof -
  have "slideIds 1 1 [Single, D, N (Num 2), Single, D]
      = [''title'', ''divider-1'', ''slide-3-1'', ''slide-3-2'', ''slide-4'', ''divider-2'']"
    by (simp add: blockIds_def titleId_def dividerId_def plainId_def innerId_def upper_def
          showNat.simps digitChar_def upt_rec)
  then show ?thesis
    using C8_identifiers_unique [of "[Single, D, N (Num 2), Single, D]"] by simp
qed

section \<open>The file system\<close>

text \<open>
  Both scripts work below one directory: \<^verbatim>\<open>create-presentation.js\<close> below the output
  directory, \<^verbatim>\<open>finalize.js\<close> below the deck directory. A directory is the list of its
  entries in the order \<^verbatim>\<open>readdirSync\<close> reports them; a file is its content. Names are
  single path components. Permissions, links and the failure of the device are not
  modelled: an operation fails only for the reasons written out below (a missing entry,
  a directory where a file is needed and the reverse).
\<close>

datatype node = File string | Dir "(string \<times> node) list"

fun isFile :: "node \<Rightarrow> bool" where
  "isFile (File c) = True"
| "isFile (Dir es) = False"

fun isDirectory :: "node \<Rightarrow> bool" where
  "isDirectory (File c) = False"
| "isDirectory (Dir es) = True"

text \<open>The entry \<open>name\<close> of a node: nothing below a file.\<close>

fun child :: "node \<Rightarrow> string \<Rightarrow> node option" where
  "child (File c) name = None"
| "child (Dir es) name = map_of es name"

text \<open>Writing or creating an entry keeps its place in the listing; a new one comes last.\<close>

fun putEntry :: "'k \<Rightarrow> 'v \<Rightarrow> ('k \<times> 'v) list \<Rightarrow> ('k \<times> 'v) list" where
  "putEntry k v [] = [(k, v)]"
| "putEntry k v ((k', v') # es) = (if k = k' then (k, v) # es else (k', v') # putEntry k v es)"

definition removeEntry :: "'k \<Rightarrow> ('k \<times> 'v) list \<Rightarrow> ('k \<times> 'v) list" where
  "removeEntry k es = filter (\<lambda>e. fst e \<noteq> k) es"

text \<open>How a run of a script ends.\<close>

datatype status = Success | Exit1 | Uncaught string

section \<open>String operations of the scripts\<close>

text \<open>\<^verbatim>\<open>s.includes(pat)\<close>.\<close>

fun includesStr :: "string \<Rightarrow> string \<Rightarrow> bool" where
  "includesStr pat [] = (pat = [])"
| "includesStr pat (c # cs) = (prefix pat (c # cs) \<or> includesStr pat cs)"

text \<open>The text before and after the first occurrence of \<open>pat\<close>.\<close>

fun splitAtSub :: "string \<Rightarrow> string \<Rightarrow> (string \<times> string) option" where
  "splitAtSub pat [] = (if pat = [] then Some ([], []) else None)"
| "splitAtSub pat (c # cs) =
     (if prefix pat (c # cs) then Some ([], drop (length pat) (c # cs))
      else map_option (\<lambda>(b, a). (c # b, a)) (splitAtSub pat cs))"

text \<open>
  The replacement patterns of \<^verbatim>\<open>String.prototype.replace\<close> with a string as the
  replacement, for a regular expression without capture groups: \<^verbatim>\<open>$$\<close> is a dollar
  sign, \<^verbatim>\<open>$&\<close> the matched text, \<^verbatim>\<open>$`\<close> the text before the match, \<^verbatim>\<open>$'\<close> the text
  after it; any other dollar sign stands for itself.
\<close>

fun expand :: "string \<Rightarrow> string \<Rightarrow> string \<Rightarrow> string \<Rightarrow> string" where
  "expand [] m b a = []"
| "expand [c] m b a = [c]"
| "expand (c # c' # r) m b a =
     (if c = CHR ''$'' \<and> c' = CHR ''$'' then CHR ''$'' # expand r m b a
      else if c = CHR ''$'' \<and> c' = CHR ''&'' then m @ expand r m b a
      else if c = CHR ''$'' \<and> c' = CHR 0x60 then b @ expand r m b a
      else if c = CHR ''$'' \<and> c' = CHR 0x27 then a @ expand r m b a
      else c # expand (c' # r) m b a)"

section \<open>\<^verbatim>\<open>JSON.stringify(config, null, 2)\<close>\<close>

text \<open>
  A parsed JSON value. A number is kept as the text \<^verbatim>\<open>JSON.stringify\<close> prints for it.
  An object is the list of its members in insertion order.
\<close>

datatype json = JNull | JBool bool | JNum string | JStr string | JArr "json list"
  | JObj "(string \<times> json) list"

definition hexDigit :: "nat \<Rightarrow> char" where
  "hexDigit d = ''0123456789abcdef'' ! d"

definition escapeChar :: "char \<Rightarrow> string" where
  "escapeChar c =
     (if c = DQ then [BS, DQ]
      else if c = BS then [BS, BS]
      else if c = CHR 0x08 then [BS, CHR ''b'']
      else if c = CHR 0x0C then [BS, CHR ''f'']
      else if c = CHR 0x0A then [BS, CHR ''n'']
      else if c = CHR 0x0D then [BS, CHR ''r'']
      else if c = CHR 0x09 then [BS, CHR ''t'']
      else if (of_char c :: nat) < 32
        then [BS, CHR ''u'', CHR ''0'', CHR ''0'', hexDigit (of_char c div 16), hexDigit (of_char c mod 16)]
      else [c])"

definition quoteJson :: "string \<Rightarrow> string" where
  "quoteJson s = DQ # concat (map escapeChar s) @ [DQ]"

definition pad :: "nat \<Rightarrow> string" where
  "pad d = replicate (2 * d) (CHR '' '')"

fun joinWith :: "string \<Rightarrow> string list \<Rightarrow> string" where
  "joinWith sep [] = []"
| "joinWith sep [x] = x"
| "joinWith sep (x # y # ys) = x @ sep @ joinWith sep (y # ys)"

primrec stringify :: "json \<Rightarrow> nat \<Rightarrow> string"
  and stringifyElems :: "json list \<Rightarrow> nat \<Rightarrow> string list"
  and stringifyMembers :: "(string \<times> json) list \<Rightarrow> nat \<Rightarrow> string list"
  and stringifyMember :: "string \<times> json \<Rightarrow> nat \<Rightarrow> string" where
  "stringify JNull d = ''null''"
| "stringify (JBool b) d = (if b then ''true'' else ''false'')"
| "stringify (JNum t) d = t"
| "stringify (JStr s) d = quoteJson s"
| "stringify (JArr xs) d =
     (if xs = [] then ''[]''
      else ''['' @ [CHR 0x0A] @ pad (Suc d)
           @ joinWith ('','' @ [CHR 0x0A] @ pad (Suc d)) (stringifyElems xs (Suc d))
           @ [CHR 0x0A] @ pad d @ '']'')"
| "stringify (JObj ms) d =
     (if ms = [] then ''{}''
      else ''{'' @ [CHR 0x0A] @ pad (Suc d)
           @ joinWith ('','' @ [CHR 0x0A] @ pad (Suc d)) (stringifyMembers ms (Suc d))
           @ [CHR 0x0A] @ pad d @ ''}'')"
| "stringifyElems [] d = []"
| "stringifyElems (x # xs) d = stringify x d # stringifyElems xs d"
| "stringifyMembers [] d = []"
| "stringifyMembers (m # ms) d = stringifyMember m d # stringifyMembers ms d"
| "stringifyMember (k, v) d = quoteJson k @ '': '' @ stringify v d"

section \<open>\<^verbatim>\<open>cleanTemplateHTML\<close>: the deck customizer\<close>

definition showInt :: "int \<Rightarrow> string" where
  "showInt n = (if n < 0 then ''-'' @ showNat (nat (- n)) else showNat (nat n))"

text \<open>
  The match of \<^verbatim>\<open>/var SLConfig = ({[\s\S]*?});/\<close>, searched from the left: the text
  before the match, the text between the braces, and the text after the match. The lazy
  star stops at the first \<^verbatim>\<open>};\<close>.
\<close>

fun matchSLConfig :: "string \<Rightarrow> (string \<times> string \<times> string) option" where
  "matchSLConfig [] = None"
| "matchSLConfig (c # cs) =
     (case (if prefix ''var SLConfig = {'' (c # cs)
            then splitAtSub ''};'' (drop 16 (c # cs)) else None) of
        Some (inner, after) \<Rightarrow> Some ([], inner, after)
      | None \<Rightarrow> map_option (\<lambda>(b, i, a). (c # b, i, a)) (matchSLConfig cs))"

text \<open>
  The match of \<^verbatim>\<open>/"key":"[^"]*"/\<close> for a field pattern \<open>key\<close> such as \<^verbatim>\<open>"slug":"\<close>,
  searched from the left: the text before, the matched text and the text after.
\<close>

fun matchField :: "string \<Rightarrow> string \<Rightarrow> (string \<times> string \<times> string) option" where
  "matchField key [] = None"
| "matchField key (c # cs) =
     (let r = drop (length key) (c # cs); v = takeWhile (\<lambda>x. x \<noteq> DQ) r
      in if prefix key (c # cs) \<and> length v < length r
         then Some ([], key @ v @ [DQ], drop (Suc (length v)) r)
         else map_option (\<lambda>(b, m, a). (c # b, m, a)) (matchField key cs))"

text \<open>\<^verbatim>\<open>s.replace(/"key":"[^"]*"/, replacement)\<close>: the first match only.\<close>

definition replaceField :: "string \<Rightarrow> string \<Rightarrow> string \<Rightarrow> string" where
  "replaceField key replacement s =
     (case matchField key s of
        None \<Rightarrow> s
      | Some (b, m, a) \<Rightarrow> b @ expand replacement m b a @ a)"

text \<open>\<^verbatim>\<open>title.replace(/"/g, '\\"')\<close>.\<close>

definition escapeQuotes :: "string \<Rightarrow> string" where
  "escapeQuotes t = concat (map (\<lambda>c. if c = DQ then [BS, DQ] else [c]) t)"

text \<open>
  The three assignments to \<^verbatim>\<open>config.deck\<close>. \<open>None\<close> is the \<^verbatim>\<open>TypeError\<close> thrown
  when \<^verbatim>\<open>config.deck\<close> is \<^verbatim>\<open>undefined\<close> or \<^verbatim>\<open>null\<close>. On a primitive or an array the
  assignments leave nothing that \<^verbatim>\<open>JSON.stringify\<close> prints.
\<close>

definition setDeckFields :: "json \<Rightarrow> string \<Rightarrow> string \<Rightarrow> json \<Rightarrow> json option" where
  "setDeckFields config slug title count =
     (case config of
        JObj ms \<Rightarrow>
          (case map_of ms ''deck'' of
             None \<Rightarrow> None
           | Some JNull \<Rightarrow> None
           | Some (JObj ds) \<Rightarrow>
               Some (JObj (putEntry ''deck''
                 (JObj (putEntry ''slide_count'' count
                         (putEntry ''title'' (JStr title)
                           (putEntry ''slug'' (JStr (''deck-'' @ slug)) ds)))) ms))
           | Some other \<Rightarrow> Some config)
      | other \<Rightarrow> None)"

text \<open>The slide count as a JSON value: \<^verbatim>\<open>JSON.stringify\<close> prints \<^verbatim>\<open>NaN\<close> as \<^verbatim>\<open>null\<close>.\<close>

definition countJson :: "item list \<Rightarrow> json" where
  "countJson structure = (case totalSlides structure of NaN \<Rightarrow> JNull | Num n \<Rightarrow> JNum (showInt n))"

text \<open>
  The \<^verbatim>\<open>try\<close> block: \<open>None\<close> when \<^verbatim>\<open>JSON.parse\<close> or an assignment throws, else the
  new script content.
\<close>

definition structuredUpdate ::
  "(string \<Rightarrow> json option) \<Rightarrow> string \<Rightarrow> string \<Rightarrow> item list \<Rightarrow> string \<times> string \<times> string
     \<Rightarrow> string option" where
  "structuredUpdate parse title slug structure m =
     (case m of (before, inner, after) \<Rightarrow>
        (case parse (''{'' @ inner @ ''}'') of
           None \<Rightarrow> None
         | Some config \<Rightarrow>
             (case setDeckFields config slug title (countJson structure) of
                None \<Rightarrow> None
              | Some config' \<Rightarrow>
                  Some (before
                        @ expand (''var SLConfig = '' @ stringify config' 0 @ '';'')
                            (''var SLConfig = {'' @ inner @ ''};'') before after
                        @ after))))"

text \<open>The \<^verbatim>\<open>catch\<close> block: the slug and the title patterns, in the raw text.\<close>

definition fallbackUpdate :: "string \<Rightarrow> string \<Rightarrow> string \<Rightarrow> string" where
  "fallbackUpdate title slug scriptContent =
     replaceField (''\"title\":\"'') (''\"title\":\"'' @ escapeQuotes title @ [DQ])
       (replaceField (''\"slug\":\"'') (''\"slug\":\"deck-'' @ slug @ [DQ]) scriptContent)"

text \<open>The new content of the configuration script, when the regular expression matches.\<close>

definition updateSLConfig ::
  "(string \<Rightarrow> json option) \<Rightarrow> string \<Rightarrow> string \<Rightarrow> item list \<Rightarrow> string \<Rightarrow> string" where
  "updateSLConfig parse title slug structure scriptContent =
     (case matchSLConfig scriptContent of
        None \<Rightarrow> scriptContent
      | Some m \<Rightarrow>
          (case structuredUpdate parse title slug structure m of
             Some new \<Rightarrow> new
           | None \<Rightarrow> fallbackUpdate title slug scriptContent))"

text \<open>
  \<^verbatim>\<open>cheerio\<close> is outside the repository. A loaded document is modelled by the three
  selections the function touches: the inner markup of each \<^verbatim>\<open>.slides\<close> element, the
  text of each \<^verbatim>\<open>title\<close> element and the content of each \<^verbatim>\<open>script\<close> element, in
  document order. \<^verbatim>\<open>.html()\<close> reads the first selected element, \<^verbatim>\<open>.html(x)\<close>,
  \<^verbatim>\<open>.text(x)\<close>, \<^verbatim>\<open>.empty()\<close> and \<^verbatim>\<open>.append(x)\<close> write every selected one.
\<close>

record doc =
  slidesContents :: "string list"
  titles :: "string list"
  scripts :: "string list"

definition cleanDoc ::
  "(string \<Rightarrow> json option) \<Rightarrow> string \<Rightarrow> string \<Rightarrow> item list \<Rightarrow> doc \<Rightarrow> doc" where
  "cleanDoc parse title slug structure d =
     (let d1 = d\<lparr>slidesContents := map (\<lambda>c. generateSlides structure) (slidesContents d),
                 titles := map (\<lambda>t. title) (titles d)\<rparr>
      in case filter (includesStr ''SLConfig'') (scripts d1) of
           [] \<Rightarrow> d1
         | scriptContent # others \<Rightarrow>
             if matchSLConfig scriptContent = None then d1
             else d1\<lparr>scripts :=
                       map (\<lambda>s. if includesStr ''SLConfig'' s
                                 then updateSLConfig parse title slug structure scriptContent
                                 else s) (scripts d1)\<rparr>)"

section \<open>\<^verbatim>\<open>create-presentation.js\<close>: materializing the template\<close>

text \<open>
  What the script takes from outside: the clock, the random slug, the fixed path of the
  template archive, \<^verbatim>\<open>path.join\<close>, and the libraries \<^verbatim>\<open>adm-zip\<close>, \<^verbatim>\<open>cheerio\<close> and
  \<^verbatim>\<open>JSON\<close>. \<open>unzip\<close> is \<^verbatim>\<open>extractAllTo\<close> seen at the scratch location: from what is
  there before, the message of the error it throws if any, and what is there after.
\<close>

record env =
  now :: nat
  randomSlug :: string
  templateZipPath :: string
  pathJoin :: "string \<Rightarrow> string \<Rightarrow> string"
  unzip :: "node option \<Rightarrow> string option \<times> node option"
  cheerioLoad :: "string \<Rightarrow> doc"
  cheerioHtml :: "doc \<Rightarrow> string"
  jsonParse :: "string \<Rightarrow> json option"

definition cleanTemplateHTML :: "env \<Rightarrow> string \<Rightarrow> string \<Rightarrow> string \<Rightarrow> item list \<Rightarrow> string" where
  "cleanTemplateHTML e html title slug structure =
     cheerioHtml e (cleanDoc (jsonParse e) title slug structure (cheerioLoad e html))"

text \<open>
  The disk as \<^verbatim>\<open>main\<close> sees it: what \<^verbatim>\<open>options.outputDir\<close> names, and whether the
  template archive is there.
\<close>

record world =
  outDir :: "node option"
  zipExists :: bool

definition tempName :: "env \<Rightarrow> string" where
  "tempName e = ''temp-extract-'' @ showNat (now e)"

text \<open>
  \<^verbatim>\<open>if (existsSync(src/name)) renameSync(src/name, dst/name)\<close> between two entries of
  the output directory. In \<^verbatim>\<open>extractTemplate\<close> the target directory is new and the
  name is not in it, so the rename itself cannot fail.
\<close>

definition moveInto ::
  "string \<Rightarrow> string \<Rightarrow> string \<Rightarrow> (string \<times> node) list \<Rightarrow> (string \<times> node) list" where
  "moveInto name src dst es =
     (case (map_of es src, map_of es dst) of
        (Some (Dir ss), Some (Dir ds)) \<Rightarrow>
          (case map_of ss name of
             None \<Rightarrow> es
           | Some n \<Rightarrow> putEntry dst (Dir (putEntry name n ds))
                         (putEntry src (Dir (removeEntry name ss)) es))
      | other \<Rightarrow> es)"

text \<open>
  The cleanup in \<^verbatim>\<open>try { ... } catch (err) { }\<close>: when the scratch location is a
  directory, its entries and then the directory are removed; when \<^verbatim>\<open>readdirSync\<close>
  throws, nothing happens.
\<close>

definition cleanupTemp :: "string \<Rightarrow> (string \<times> node) list \<Rightarrow> (string \<times> node) list" where
  "cleanupTemp temp es =
     (case map_of es temp of
        Some (Dir ts) \<Rightarrow> removeEntry temp es
      | other \<Rightarrow> es)"

text \<open>
  \<^verbatim>\<open>extractTemplate(slug, outputDir)\<close>: the value returned (\<open>Inr deckPath\<close>) or the
  message of the error thrown (\<open>Inl\<close>), and the disk afterwards.
\<close>

definition extractTemplate ::
  "env \<Rightarrow> string \<Rightarrow> string \<Rightarrow> world \<Rightarrow> (string + string) \<times> world" where
  "extractTemplate e slug outputDir w =
     (let deckFolderName = ''deck-'' @ slug;
          deckPath = pathJoin e outputDir deckFolderName
      in case outDir w of
           None \<Rightarrow> (Inl ''ENOENT'', w)
         | Some (File c) \<Rightarrow> (Inl ''ENOTDIR'', w)
         | Some (Dir es) \<Rightarrow>
             if map_of es deckFolderName \<noteq> None
             then (Inl (''Deck folder already exists: '' @ deckPath), w)
             else
               (let extracted = unzip e (map_of es (tempName e));
                    es1 = (case snd extracted of
                             None \<Rightarrow> removeEntry (tempName e) es
                           | Some n \<Rightarrow> putEntry (tempName e) n es)
                in case fst extracted of
                     Some err \<Rightarrow> (Inl err, w\<lparr>outDir := Some (Dir es1)\<rparr>)
                   | None \<Rightarrow>
                       (let es2 = putEntry deckFolderName (Dir []) es1;
                            es3 = moveInto ''index.html'' (tempName e) deckFolderName es2;
                            es4 = moveInto ''lib'' (tempName e) deckFolderName es3;
                            es5 = cleanupTemp (tempName e) es4
                        in (Inr deckPath, w\<lparr>outDir := Some (Dir es5)\<rparr>))))"

text \<open>The options \<^verbatim>\<open>parseArgs\<close> returns; \<open>None\<close> is \<^verbatim>\<open>null\<close>.\<close>

record options =
  slides :: "jsnum option"
  structureArg :: "item list option"
  outputDir :: string
  title :: string
  slug :: "string option"

text \<open>
  The options that \<^verbatim>\<open>--slides\<close> and \<^verbatim>\<open>--structure\<close> set:
  \<^verbatim>\<open>parseInt(arg, 10)\<close>, and \<^verbatim>\<open>arg.split(',').map(n => n === 'd' ? 'd' : parseInt(n, 10))\<close>
  (\<open>structureOf\<close> above).
\<close>

definition slidesOf :: "string \<Rightarrow> jsnum" where
  "slidesOf arg = parseInt10 arg"

definition errBoth :: string where
  "errBoth = ''Error: Cannot use both --slides and --structure. Choose one.''"

definition errSlideCount :: string where
  "errSlideCount = ''Error: Slide count must be at least 1.''"

definition errStructure :: string where
  \<open>errStructure = ''Error: Structure values must be positive integers or "d" for dividers.''\<close>

definition errTemplate :: "env \<Rightarrow> string" where
  "errTemplate e = ''Error: Template zip not found at '' @ templateZipPath e"

text \<open>
  The validation at the head of \<^verbatim>\<open>main\<close>: the structure to render, or how the run
  ends and what it prints on the error stream. \<^verbatim>\<open>Array(n)\<close> throws a
  \<^verbatim>\<open>RangeError\<close> beyond \<open>2^32 - 1\<close> elements.
\<close>

definition resolveStructure :: "options \<Rightarrow> (status \<times> string list) + item list" where
  "resolveStructure opts =
     (if slides opts \<noteq> None \<and> structureArg opts \<noteq> None then Inl (Exit1, [errBoth])
      else case (slides opts, structureArg opts) of
             (None, None) \<Rightarrow> Inr [Single, Single, Single, Single, Single]
           | (Some n, _) \<Rightarrow>
               if num_lt n 1 \<or> isNaN n then Inl (Exit1, [errSlideCount])
               else (case n of
                       Num k \<Rightarrow> if k > 4294967295 then Inl (Uncaught ''RangeError: Invalid array length'', [])
                                else Inr (replicate (nat k) Single)
                     | NaN \<Rightarrow> Inl (Exit1, [errSlideCount]))
           | (None, Some s) \<Rightarrow>
               if list_ex badItem s then Inl (Exit1, [errStructure]) else Inr s)"

text \<open>
  \<^verbatim>\<open>main\<close>: how the run ends, the disk afterwards and the lines printed on the error
  stream. Standard output is not modelled.
\<close>

definition main :: "env \<Rightarrow> options \<Rightarrow> world \<Rightarrow> status \<times> world \<times> string list" where
  "main e opts w =
     (case resolveStructure opts of
        Inl (st, msgs) \<Rightarrow> (st, w, msgs)
      | Inr s \<Rightarrow>
          (let theSlug = (case slug opts of None \<Rightarrow> randomSlug e
                          | Some g \<Rightarrow> if g = [] then randomSlug e else g)
           in if \<not> zipExists w then (Exit1, w, [errTemplate e])
              else
                (let w1 = (if outDir w = None then w\<lparr>outDir := Some (Dir [])\<rparr> else w)
                 in case extractTemplate e theSlug (outputDir opts) w1 of
                      (Inl err, w2) \<Rightarrow> (Exit1, w2, [''Error: '' @ err])
                    | (Inr deckPath, w2) \<Rightarrow>
                        (case outDir w2 of
                           Some (Dir es) \<Rightarrow>
                             (case map_of es (''deck-'' @ theSlug) of
                                Some (Dir ds) \<Rightarrow>
                                  (case map_of ds ''index.html'' of
                                     None \<Rightarrow> (Exit1, w2, [''Error: ENOENT''])
                                   | Some (Dir x) \<Rightarrow> (Exit1, w2, [''Error: EISDIR''])
                                   | Some (File html) \<Rightarrow>
                                       (Success,
                                        w2\<lparr>outDir := Some (Dir (putEntry (''deck-'' @ theSlug)
                                              (Dir (putEntry ''index.html''
                                                 (File (cleanTemplateHTML e html (title opts) theSlug s)) ds))
                                              es))\<rparr>,
                                        []))
                              | other \<Rightarrow> (Exit1, w2, [''Error: ENOENT'']))
                         | other \<Rightarrow> (Exit1, w2, [''Error: ENOENT''])))))"

section \<open>\<^verbatim>\<open>finalize.js\<close>\<close>

subsection \<open>The regular expression of step 3\<close>

text \<open>
  \<^verbatim>\<open>/<link[^>]*href="[^"]*\.css"[^>]*>/gi\<close>. The flag \<^verbatim>\<open>i\<close> compares letters by their
  upper case. A matcher takes the text at the current position and returns the number of
  characters the rest of the pattern consumes there, if it matches. A greedy star tries
  the longest run first and gives characters back one at a time.
\<close>

definition upperChar :: "char \<Rightarrow> char" where
  "upperChar c =
     (if 97 \<le> (of_char c :: nat) \<and> (of_char c :: nat) \<le> 122 then char_of ((of_char c :: nat) - 32) else c)"

fun ciPrefix :: "string \<Rightarrow> string \<Rightarrow> bool" where
  "ciPrefix [] s = True"
| "ciPrefix (p # ps) [] = False"
| "ciPrefix (p # ps) (c # cs) = (upperChar p = upperChar c \<and> ciPrefix ps cs)"

type_synonym matcher = "string \<Rightarrow> nat option"

definition lit :: "string \<Rightarrow> matcher \<Rightarrow> matcher" where
  "lit pat k s =
     (if ciPrefix pat s then map_option (\<lambda>m. length pat + m) (k (drop (length pat) s)) else None)"

fun starDown :: "matcher \<Rightarrow> string \<Rightarrow> nat \<Rightarrow> nat option" where
  "starDown k s 0 = k s"
| "starDown k s (Suc n) =
     (case k (drop (Suc n) s) of
        Some m \<Rightarrow> Some (Suc n + m)
      | None \<Rightarrow> starDown k s n)"

definition star :: "(char \<Rightarrow> bool) \<Rightarrow> matcher \<Rightarrow> matcher" where
  "star P k s = starDown k s (length (takeWhile P s))"

definition matchEnd :: matcher where
  "matchEnd s = Some 0"

definition linkRegex :: matcher where
  \<open>linkRegex =
     lit ''<link'' (star (\<lambda>c. c \<noteq> CHR ''>'')
       (lit ''href="'' (star (\<lambda>c. c \<noteq> DQ)
         (lit ''.css"'' (star (\<lambda>c. c \<noteq> CHR ''>'')
           (lit ''>'' matchEnd))))))\<close>

text \<open>The callback: a match that names the canonical stylesheet is kept, any other removed.\<close>

definition keepLink :: "string \<Rightarrow> string" where
  "keepLink m = (if includesStr ''lib/offline-v2.css'' m then m else [])"

lemma lit_length: "lit pat k s = Some m \<Longrightarrow> length pat \<le> m"
  by (auto simp: lit_def split: if_splits)

lemma linkRegex_positive: "linkRegex s = Some m \<Longrightarrow> 0 < m"
  unfolding linkRegex_def by (drule lit_length) simp

text \<open>\<^verbatim>\<open>html.replace(regex, callback)\<close> with the flag \<^verbatim>\<open>g\<close>: every match, left to right.\<close>

function stripLinks :: "string \<Rightarrow> string" where
  "stripLinks [] = []"
| "stripLinks (c # cs) =
     (case linkRegex (c # cs) of
        None \<Rightarrow> c # stripLinks cs
      | Some m \<Rightarrow> keepLink (take m (c # cs)) @ stripLinks (drop m (c # cs)))"
  by pat_completeness auto
termination
proof (relation "measure length")
  show "wf (measure length)" by simp
next
  fix c :: char and cs :: string
  show "(cs, c # cs) \<in> measure length" by simp
next
  fix c :: char and cs :: string and m :: nat
  assume "linkRegex (c # cs) = Some m"
  then have "0 < m" by (rule linkRegex_positive)
  then show "(drop m (c # cs), c # cs) \<in> measure length" by simp
qed

declare stripLinks.simps(2) [simp del]

subsection \<open>The four steps\<close>

definition errNoDeck :: "string \<Rightarrow> string" where
  "errNoDeck deckPath = ''Error: Deck path does not exist: '' @ deckPath"

definition errNoIndex :: "string \<Rightarrow> string" where
  "errNoIndex deckPath = ''Error: index.html not found in '' @ deckPath"

definition warnNoMainCss :: string where
  "warnNoMainCss = [CHR 0xE2, CHR 0x9A, CHR 0xA0]
     @ '' Warning: lib/offline-v2.css not found, skipping CSS integration''"

text \<open>Step 1: \<^verbatim>\<open>if (!existsSync(assetsPath)) mkdirSync(assetsPath)\<close>.\<close>

definition ensureAssets :: "(string \<times> node) list \<Rightarrow> (string \<times> node) list" where
  "ensureAssets es = (if map_of es ''assets'' = None then es @ [(''assets'', Dir [])] else es)"

text \<open>What \<^verbatim>\<open>lib/offline-v2.css\<close> names below the deck directory.\<close>

definition mainCss :: "(string \<times> node) list \<Rightarrow> node option" where
  "mainCss es =
     (case map_of es ''lib'' of
        Some (Dir ls) \<Rightarrow> map_of ls ''offline-v2.css''
      | other \<Rightarrow> None)"

text \<open>The loop over \<^verbatim>\<open>readdirSync(deckPath)\<close> that collects \<^verbatim>\<open>cssFiles\<close>.\<close>

definition cssFiles :: "(string \<times> node) list \<Rightarrow> (string \<times> node) list" where
  "cssFiles es =
     filter (\<lambda>e. isFile (snd e) \<and> suffix ''.css'' (fst e) \<and> fst e \<noteq> ''offline-v2.css'') es"

definition banner :: "string \<Rightarrow> string" where
  "banner fileName = [CHR 0x0A] @ ''/* Integrated from '' @ fileName @ '' */'' @ [CHR 0x0A]"

fun fileContent :: "node \<Rightarrow> string" where
  "fileContent (File c) = c"
| "fileContent (Dir es) = []"

definition customCss :: "(string \<times> node) list \<Rightarrow> string" where
  "customCss files =
     [CHR 0x0A, CHR 0x0A] @ ''/* === Custom Styles === */'' @ [CHR 0x0A]
     @ concat (map (\<lambda>f. banner (fst f) @ fileContent (snd f) @ [CHR 0x0A]) files)"

text \<open>
  Step 2. \<open>Inl\<close> is the code of the error \<^verbatim>\<open>readFileSync(mainCssPath)\<close> throws when
  the canonical path names a directory; nothing catches it. \<open>Inr\<close> is the directory
  after the step and the warning printed.
\<close>

definition integrateCss ::
  "(string \<times> node) list \<Rightarrow> string + (string \<times> node) list \<times> string list" where
  "integrateCss es =
     (case mainCss es of
        None \<Rightarrow> Inr (es, [warnNoMainCss])
      | Some canonical \<Rightarrow>
          if cssFiles es = [] then Inr (es, [])
          else (case (canonical, map_of es ''lib'') of
                  (File mainContent, Some (Dir ls)) \<Rightarrow>
                    Inr (foldl (\<lambda>d f. removeEntry (fst f) d)
                           (putEntry ''lib''
                              (Dir (putEntry ''offline-v2.css''
                                      (File (mainContent @ customCss (cssFiles es))) ls)) es)
                           (cssFiles es), [])
                | other \<Rightarrow> Inl ''EISDIR''))"

text \<open>Step 3: the markup is written only when the replacement changed it.\<close>

definition stripCssReferences :: "(string \<times> node) list \<Rightarrow> string + (string \<times> node) list" where
  "stripCssReferences es =
     (case map_of es ''index.html'' of
        None \<Rightarrow> Inl ''ENOENT''
      | Some (Dir x) \<Rightarrow> Inl ''EISDIR''
      | Some (File html) \<Rightarrow>
          if stripLinks html \<noteq> html then Inr (putEntry ''index.html'' (File (stripLinks html)) es)
          else Inr es)"

text \<open>Step 4: a directory is removed with what it holds, a file unlinked.\<close>

definition removeArtifacts :: "(string \<times> node) list \<Rightarrow> (string \<times> node) list" where
  "removeArtifacts es =
     foldl (\<lambda>d artifact. if map_of d artifact \<noteq> None then removeEntry artifact d else d)
       es [''screenshots'', ''output.pdf'']"

text \<open>
  The script: how the run ends, what the deck path names afterwards (\<open>None\<close> when
  nothing is there) and the lines printed on the error stream.
\<close>

definition finalize :: "string \<Rightarrow> node option \<Rightarrow> status \<times> node option \<times> string list" where
  "finalize deckPath disk =
     (case disk of
        None \<Rightarrow> (Exit1, disk, [errNoDeck deckPath])
      | Some (File c) \<Rightarrow> (Exit1, disk, [errNoIndex deckPath])
      | Some (Dir es) \<Rightarrow>
          if map_of es ''index.html'' = None then (Exit1, disk, [errNoIndex deckPath])
          else
            (case integrateCss (ensureAssets es) of
               Inl err \<Rightarrow> (Uncaught err, Some (Dir (ensureAssets es)), [])
             | Inr (es2, warnings) \<Rightarrow>
                 (case stripCssReferences es2 of
                    Inl err \<Rightarrow> (Uncaught err, Some (Dir es2), warnings)
                  | Inr es3 \<Rightarrow> (Success, Some (Dir (removeArtifacts es3)), warnings))))"

section \<open>An example installation\<close>

text \<open>
  Concrete values for what the scripts take from outside, used to evaluate the model:
  a template with a markup entry, an asset library and one extra top-level folder, and
  stand-ins for \<^verbatim>\<open>cheerio\<close> and \<^verbatim>\<open>JSON.parse\<close> that know this one template.
\<close>

definition exampleScript :: string where
  \<open>exampleScript = ''var SLConfig = {"deck":{"slug":"template","title":"Template","slide_count":3}};''\<close>

definition exampleConfig :: json where
  "exampleConfig =
     JObj [(''deck'', JObj [(''slug'', JStr ''template''), (''title'', JStr ''Template''),
                            (''slide_count'', JNum ''3'')])]"

definition exampleDoc :: doc where
  "exampleDoc = \<lparr>slidesContents = [''<section>old</section>''], titles = [''Template''],
                  scripts = [''Reveal.initialize();'', exampleScript]\<rparr>"

definition exampleHtml :: "doc \<Rightarrow> string" where
  \<open>exampleHtml d =
     ''<html><head><title>'' @ concat (titles d)
     @ ''</title><link rel="stylesheet" href="lib/offline-v2.css"></head><body><div class="slides">''
     @ concat (slidesContents d) @ ''</div>''
     @ concat (map (\<lambda>s. ''<script>'' @ s @ ''</script>'') (scripts d)) @ ''</body></html>''\<close>

definition exampleParse :: "string \<Rightarrow> json option" where
  \<open>exampleParse s =
     (if s = ''{"deck":{"slug":"template","title":"Template","slide_count":3}}''
      then Some exampleConfig else None)\<close>

definition exampleEnv :: env where
  "exampleEnv =
     \<lparr>now = 1706,
      randomSlug = ''a1b2c3'',
      templateZipPath = ''/skills/revealjs/references/template.zip'',
      pathJoin = (\<lambda>a b. a @ ''/'' @ b),
      unzip = (\<lambda>before. (None, Some (Dir [(''index.html'', File (exampleHtml exampleDoc)),
                                            (''lib'', Dir [(''offline-v2.css'', File ''body{margin:0}'')]),
                                            (''deck-c2bbd4'', Dir [])]))),
      cheerioLoad = (\<lambda>html. exampleDoc),
      cheerioHtml = exampleHtml,
      jsonParse = exampleParse\<rparr>"

definition exampleWorld :: world where
  "exampleWorld = \<lparr>outDir = Some (Dir [(''notes.txt'', File ''keep'')]), zipExists = True\<rparr>"

definition exampleOptions :: options where
  "exampleOptions = \<lparr>slides = None, structureArg = None, outputDir = ''decks'',
                      title = ''Q4 Review'', slug = Some ''q4''\<rparr>"

section \<open>Directory entries\<close>

lemma map_of_putEntry: "map_of (putEntry k v es) k' = (if k' = k then Some v else map_of es k')"
  by (induction es) auto

lemma map_of_removeEntry: "map_of (removeEntry k es) k' = (if k' = k then None else map_of es k')"
  by (induction es) (auto simp: removeEntry_def)

lemma map_of_moveInto_dst:
  "map_of es dst \<noteq> None \<Longrightarrow> map_of (moveInto name src dst es) dst \<noteq> None"
  by (auto simp: moveInto_def map_of_putEntry split: option.splits node.splits)

lemma map_of_cleanupTemp:
  "k \<noteq> temp \<Longrightarrow> map_of (cleanupTemp temp es) k = map_of es k"
  by (auto simp: cleanupTemp_def map_of_removeEntry split: option.splits node.splits)

lemma deck_not_temp: "''deck-'' @ sl \<noteq> tempName e"
  by (simp add: tempName_def)

section \<open>Materializing twice\<close>

lemma extractTemplate_creates_deck:
  assumes "fst (extractTemplate e sl out w) = Inr p"
  shows "\<exists>es. outDir (snd (extractTemplate e sl out w)) = Some (Dir es)
            \<and> map_of es (''deck-'' @ sl) \<noteq> None"
proof -
  from assms obtain es0 where o: "outDir w = Some (Dir es0)"
    by (cases "outDir w") (auto simp: extractTemplate_def Let_def split: node.splits)
  from assms o have free: "map_of es0 (''deck-'' @ sl) = None"
    by (auto simp: extractTemplate_def Let_def split: if_splits)
  from assms o free have ok: "fst (unzip e (map_of es0 (tempName e))) = None"
    by (auto simp: extractTemplate_def Let_def split: option.splits)
  define es1 where "es1 = (case snd (unzip e (map_of es0 (tempName e))) of
       None \<Rightarrow> removeEntry (tempName e) es0 | Some n \<Rightarrow> putEntry (tempName e) n es0)"
  define es5 where "es5 = cleanupTemp (tempName e)
       (moveInto ''lib'' (tempName e) (''deck-'' @ sl)
          (moveInto ''index.html'' (tempName e) (''deck-'' @ sl)
             (putEntry (''deck-'' @ sl) (Dir []) es1)))"
  from o free ok have r: "outDir (snd (extractTemplate e sl out w)) = Some (Dir es5)"
    by (simp add: extractTemplate_def Let_def es5_def es1_def)
  have "map_of (putEntry (''deck-'' @ sl) (Dir []) es1) (''deck-'' @ sl) \<noteq> None"
    by (simp add: map_of_putEntry)
  then have "map_of (moveInto ''lib'' (tempName e) (''deck-'' @ sl)
          (moveInto ''index.html'' (tempName e) (''deck-'' @ sl)
             (putEntry (''deck-'' @ sl) (Dir []) es1))) (''deck-'' @ sl) \<noteq> None"
    by (intro map_of_moveInto_dst)
  then have "map_of es5 (''deck-'' @ sl) \<noteq> None"
    unfolding es5_def using deck_not_temp [of sl e] by (simp add: map_of_cleanupTemp)
  with r show ?thesis by blast
qed

text \<open>
  C3. When a call of \<^verbatim>\<open>extractTemplate\<close> has returned, a second call with the same slug
  and output directory (at any later clock value, with any archive) throws
  \<^verbatim>\<open>Deck folder already exists: <deckPath>\<close>, the message naming the path, and leaves
  the whole output directory, the first call's deck directory included, as it was. The
  check comes before the extraction, so no scratch location is created either. The slug
  is a single path component.
\<close>

theorem C3_second_materialization_conflicts:
  assumes "fst (extractTemplate e sl out w) = Inr p"
  shows "extractTemplate e' sl out (snd (extractTemplate e sl out w))
       = (Inl (''Deck folder already exists: '' @ pathJoin e' out (''deck-'' @ sl)),
          snd (extractTemplate e sl out w))"
proof -
  define w1 where "w1 = snd (extractTemplate e sl out w)"
  from extractTemplate_creates_deck [OF assms] obtain es
    where "outDir w1 = Some (Dir es)" and "map_of es (''deck-'' @ sl) \<noteq> None"
    unfolding w1_def by blast
  then have "extractTemplate e' sl out w1
       = (Inl (''Deck folder already exists: '' @ pathJoin e' out (''deck-'' @ sl)), w1)"
    by (simp add: extractTemplate_def Let_def)
  then show ?thesis unfolding w1_def .
qed

lemma example_extract:
  "extractTemplate exampleEnv ''q4'' ''decks'' exampleWorld
     = (Inr ''decks/deck-q4'',
        \<lparr>outDir = Some (Dir [(''notes.txt'', File ''keep''),
                              (''deck-q4'', Dir [(''index.html'', File (exampleHtml exampleDoc)),
                                                (''lib'', Dir [(''offline-v2.css'', File ''body{margin:0}'')])])]),
         zipExists = True\<rparr>)"
  by (simp add: extractTemplate_def exampleEnv_def exampleWorld_def Let_def tempName_def
        moveInto_def cleanupTemp_def removeEntry_def showNat.simps digitChar_def)

theorem C3_witness:
  "fst (extractTemplate exampleEnv ''q4'' ''decks'' exampleWorld) = Inr ''decks/deck-q4''
   \<and> extractTemplate (exampleEnv\<lparr>now := 1707\<rparr>) ''q4'' ''decks''
        (snd (extractTemplate exampleEnv ''q4'' ''decks'' exampleWorld))
     = (Inl ''Deck folder already exists: decks/deck-q4'',
        snd (extractTemplate exampleEnv ''q4'' ''decks'' exampleWorld))"
proof -
  have a: "fst (extractTemplate exampleEnv ''q4'' ''decks'' exampleWorld) = Inr ''decks/deck-q4''"
    by (simp add: example_extract)
  have j: "pathJoin (exampleEnv\<lparr>now := 1707\<rparr>) ''decks'' (''deck-'' @ ''q4'') = ''decks/deck-q4''"
    by (simp add: exampleEnv_def)
  from C3_second_materialization_conflicts [OF a, of "exampleEnv\<lparr>now := 1707\<rparr>"] a
  show ?thesis by (simp only: j) simp
qed

section \<open>Configuration errors\<close>

lemma resolve_both:
  "slides opts \<noteq> None \<Longrightarrow> structureArg opts \<noteq> None \<Longrightarrow> resolveStructure opts = Inl (Exit1, [errBoth])"
  by (simp add: resolveStructure_def)

lemma resolve_bad_structure:
  "slides opts = None \<Longrightarrow> structureArg opts = Some s \<Longrightarrow> \<not> validStructure s \<Longrightarrow>
     resolveStructure opts = Inl (Exit1, [errStructure])"
  by (simp add: resolveStructure_def validStructure_def)

lemma resolve_bad_slides:
  "slides opts = Some n \<Longrightarrow> structureArg opts = None \<Longrightarrow> num_lt n 1 \<or> isNaN n \<Longrightarrow>
     resolveStructure opts = Inl (Exit1, [errSlideCount])"
  by (simp add: resolveStructure_def)

lemma main_resolve_error:
  "resolveStructure opts = Inl (st, msgs) \<Longrightarrow> main e opts w = (st, w, msgs)"
  by (simp add: main_def)

lemma main_no_template:
  "resolveStructure opts = Inr s \<Longrightarrow> \<not> zipExists w \<Longrightarrow> main e opts w = (Exit1, w, [errTemplate e])"
  by (simp add: main_def Let_def)

lemma resolve_never_succeeds_early:
  "resolveStructure opts = Inl (st, msgs) \<Longrightarrow> st \<noteq> Success"
  by (auto simp: resolveStructure_def split: if_splits option.splits jsnum.splits)

text \<open>
  C9 (as amended). Each configuration error ends the run with exit code 1 and leaves
  the disk as it was: both \<^verbatim>\<open>--slides\<close> and \<^verbatim>\<open>--structure\<close> given, a structure with
  an element that is neither \<^verbatim>\<open>'d'\<close> nor an integer of at least 1, a slide count
  below 1 or not a number, and a missing template archive. The message for the missing
  archive names its path; the other three messages are fixed texts that do not name the
  offending value.
\<close>

theorem C9_config_errors_abort_before_mutation:
  "(slides opts \<noteq> None \<and> structureArg opts \<noteq> None
      \<longrightarrow> main e opts w = (Exit1, w, [errBoth]))
   \<and> (slides opts = None \<and> structureArg opts = Some s \<and> \<not> validStructure s
      \<longrightarrow> main e opts w = (Exit1, w, [errStructure]))
   \<and> (slides opts = Some n \<and> structureArg opts = None \<and> (num_lt n 1 \<or> isNaN n)
      \<longrightarrow> main e opts w = (Exit1, w, [errSlideCount]))
   \<and> (\<not> zipExists w \<longrightarrow> fst (main e opts w) \<noteq> Success \<and> fst (snd (main e opts w)) = w)
   \<and> (\<not> zipExists w \<and> resolveStructure opts = Inr s'
      \<longrightarrow> main e opts w = (Exit1, w, [''Error: Template zip not found at '' @ templateZipPath e]))"
proof -
  have c1: "slides opts \<noteq> None \<and> structureArg opts \<noteq> None
      \<longrightarrow> main e opts w = (Exit1, w, [errBoth])"
    using resolve_both [of opts] main_resolve_error [of opts Exit1 "[errBoth]" e w] by blast
  have c2: "slides opts = None \<and> structureArg opts = Some s \<and> \<not> validStructure s
      \<longrightarrow> main e opts w = (Exit1, w, [errStructure])"
    using resolve_bad_structure [of opts s] main_resolve_error [of opts Exit1 "[errStructure]" e w]
    by blast
  have c3: "slides opts = Some n \<and> structureArg opts = None \<and> (num_lt n 1 \<or> isNaN n)
      \<longrightarrow> main e opts w = (Exit1, w, [errSlideCount])"
    using resolve_bad_slides [of opts n] main_resolve_error [of opts Exit1 "[errSlideCount]" e w]
    by blast
  have c4: "\<not> zipExists w \<longrightarrow> fst (main e opts w) \<noteq> Success \<and> fst (snd (main e opts w)) = w"
  proof
    assume z: "\<not> zipExists w"
    show "fst (main e opts w) \<noteq> Success \<and> fst (snd (main e opts w)) = w"
    proof (cases "resolveStructure opts")
      case (Inl r)
      obtain st msgs where r: "r = (st, msgs)" by (cases r)
      with Inl have "main e opts w = (st, w, msgs)" by (simp add: main_resolve_error)
      moreover from Inl r have "st \<noteq> Success" by (simp add: resolve_never_succeeds_early)
      ultimately show ?thesis by simp
    next
      case (Inr x)
      from Inr z have "main e opts w = (Exit1, w, [errTemplate e])" by (rule main_no_template)
      then show ?thesis by simp
    qed
  qed
  have c5: "\<not> zipExists w \<and> resolveStructure opts = Inr s'
      \<longrightarrow> main e opts w = (Exit1, w, [''Error: Template zip not found at '' @ templateZipPath e])"
    using main_no_template [of opts s' w e] by (simp add: errTemplate_def)
  from c1 c2 c3 c4 c5 show ?thesis by blast
qed

theorem C9_witness:
  "main exampleEnv (exampleOptions\<lparr>structureArg := Some (structureOf ''1,x,2'')\<rparr>) exampleWorld
     = (Exit1, exampleWorld, [errStructure])
   \<and> main exampleEnv exampleOptions (exampleWorld\<lparr>zipExists := False\<rparr>)
     = (Exit1, exampleWorld\<lparr>zipExists := False\<rparr>,
        [''Error: Template zip not found at /skills/revealjs/references/template.zip''])"
proof -
  have s: "structureOf ''1,x,2'' = [Single, N NaN, N (Num 2)]"
    by (simp add: structureOf_def parseInt10_def isWhite_def isDigit_def digitVal_def)
  have a: "slides (exampleOptions\<lparr>structureArg := Some (structureOf ''1,x,2'')\<rparr>) = None
     \<and> structureArg (exampleOptions\<lparr>structureArg := Some (structureOf ''1,x,2'')\<rparr>)
         = Some (structureOf ''1,x,2'')
     \<and> \<not> validStructure (structureOf ''1,x,2'')"
    by (simp add: exampleOptions_def s validStructure_def)
  have b: "\<not> zipExists (exampleWorld\<lparr>zipExists := False\<rparr>)
     \<and> resolveStructure exampleOptions = Inr [Single, Single, Single, Single, Single]"
    by (simp add: exampleOptions_def resolveStructure_def)
  have t: "templateZipPath exampleEnv = ''/skills/revealjs/references/template.zip''"
    by (simp add: exampleEnv_def)
  from C9_config_errors_abort_before_mutation
         [of "exampleOptions\<lparr>structureArg := Some (structureOf ''1,x,2'')\<rparr>" exampleEnv
             exampleWorld "structureOf ''1,x,2''"] a
  have r1: "main exampleEnv (exampleOptions\<lparr>structureArg := Some (structureOf ''1,x,2'')\<rparr>)
              exampleWorld = (Exit1, exampleWorld, [errStructure])" by blast
  from C9_config_errors_abort_before_mutation
         [of exampleOptions exampleEnv "exampleWorld\<lparr>zipExists := False\<rparr>" _ _
             "[Single, Single, Single, Single, Single]"] b
  have r2: "main exampleEnv exampleOptions (exampleWorld\<lparr>zipExists := False\<rparr>)
     = (Exit1, exampleWorld\<lparr>zipExists := False\<rparr>,
        [''Error: Template zip not found at '' @ templateZipPath exampleEnv])" by blast
  from r1 r2 t show ?thesis by simp
qed

text \<open>
  C9 as stated fails: for the structure \<^verbatim>\<open>1,0,2\<close> the offending token is \<^verbatim>\<open>0\<close>,
  and the only line printed is the fixed message, in which \<^verbatim>\<open>0\<close> does not occur.
\<close>

theorem C9_counterexample:
  "main exampleEnv (exampleOptions\<lparr>structureArg := Some (structureOf ''1,0,2'')\<rparr>) exampleWorld
     = (Exit1, exampleWorld, [errStructure])
   \<and> \<not> list_ex (includesStr ''0'')
         (snd (snd (main exampleEnv
            (exampleOptions\<lparr>structureArg := Some (structureOf ''1,0,2'')\<rparr>) exampleWorld)))"
proof -
  have s: "structureOf ''1,0,2'' = [Single, N (Num 0), N (Num 2)]"
    by (simp add: structureOf_def parseInt10_def isWhite_def isDigit_def digitVal_def)
  have m: "main exampleEnv (exampleOptions\<lparr>structureArg := Some (structureOf ''1,0,2'')\<rparr>)
             exampleWorld = (Exit1, exampleWorld, [errStructure])"
    by (simp add: main_def resolveStructure_def exampleOptions_def s)
  have "\<not> includesStr ''0'' errStructure"
    by (simp add: errStructure_def)
  with m show ?thesis by simp
qed

section \<open>The precondition of \<^verbatim>\<open>finalize.js\<close>\<close>

text \<open>
  C10. When nothing is at the deck path, or what is there holds no \<^verbatim>\<open>index.html\<close>
  (a directory without that entry, or a file), the script prints its error, exits with
  code 1 and leaves the disk as it was: none of the four steps runs.
\<close>

theorem C10_missing_markup_stops_pipeline:
  "(disk = None \<longrightarrow> finalize p disk = (Exit1, None, [errNoDeck p]))
   \<and> (disk = Some root \<and> child root ''index.html'' = None
        \<longrightarrow> finalize p disk = (Exit1, disk, [errNoIndex p]))"
proof -
  have a: "disk = None \<longrightarrow> finalize p disk = (Exit1, None, [errNoDeck p])"
    by (simp add: finalize_def)
  have b: "disk = Some root \<and> child root ''index.html'' = None
        \<longrightarrow> finalize p disk = (Exit1, disk, [errNoIndex p])"
    by (cases root) (simp_all add: finalize_def)
  from a b show ?thesis by blast
qed

theorem C10_witness:
  "finalize ''decks/deck-q4'' None
     = (Exit1, None, [''Error: Deck path does not exist: decks/deck-q4''])
   \<and> finalize ''decks/deck-q4'' (Some (Dir [(''a.css'', File ''body{color:red}''), (''screenshots'', Dir [])]))
     = (Exit1, Some (Dir [(''a.css'', File ''body{color:red}''), (''screenshots'', Dir [])]),
        [''Error: index.html not found in decks/deck-q4''])"
proof -
  have c: "child (Dir [(''a.css'', File ''body{color:red}''), (''screenshots'', Dir [])]) ''index.html'' = None"
    by simp
  from C10_missing_markup_stops_pipeline [of None "''decks/deck-q4''"]
  have r1: "finalize ''decks/deck-q4'' None = (Exit1, None, [errNoDeck ''decks/deck-q4''])" by blast
  from C10_missing_markup_stops_pipeline
         [of "Some (Dir [(''a.css'', File ''body{color:red}''), (''screenshots'', Dir [])])"
             "''decks/deck-q4''"
             "Dir [(''a.css'', File ''body{color:red}''), (''screenshots'', Dir [])]"] c
  have r2: "finalize ''decks/deck-q4'' (Some (Dir [(''a.css'', File ''body{color:red}''), (''screenshots'', Dir [])]))
     = (Exit1, Some (Dir [(''a.css'', File ''body{color:red}''), (''screenshots'', Dir [])]),
        [errNoIndex ''decks/deck-q4''])" by blast
  from r1 r2 show ?thesis by (simp add: errNoDeck_def errNoIndex_def)
qed

end
